theory Spec2Isabelle
  imports Main
begin

section \<open>The demonstration client of the random-number server\<close>

text \<open>
  The program is \<^verbatim>\<open>examples/demo_host.py\<close>: a class \<^verbatim>\<open>MCPClient\<close> that owns a child
  process, writes one JSON request per call to the child's standard input and reads one
  line of JSON back from its standard output. The methods \<^verbatim>\<open>__init__\<close>, \<^verbatim>\<open>start_server\<close>,
  \<^verbatim>\<open>send_request\<close>, \<^verbatim>\<open>call_tool\<close> and \<^verbatim>\<open>stop_server\<close> are embedded below, one definition
  each, with the object's two fields passed explicitly as a record.

  The methods call into Python's \<^verbatim>\<open>json\<close> and \<^verbatim>\<open>asyncio\<close> libraries. The fragment of
  those libraries that the methods use is modelled first; where the libraries' behaviour
  is not modelled (floating point numbers, text beyond ASCII on the wire, integers longer
  than the interpreter's conversion limit, nesting beyond the recursion limit) the model
  answers \<open>Outside_Model\<close> rather than inventing a behaviour.
\<close>

subsection \<open>Values, exceptions and outcomes\<close>

text \<open>
  The values that \<^verbatim>\<open>json.loads\<close> produces and \<^verbatim>\<open>json.dumps\<close> accepts: \<^verbatim>\<open>None\<close>, booleans,
  unbounded integers, strings, lists, and dictionaries with string keys. A dictionary is
  an association list in insertion order. A string is a list of code points below 256.
\<close>

datatype json =
    JNull
  | JBool bool
  | JInt int
  | JStr string
  | JArr "json list"
  | JObj "(string \<times> json) list"

text \<open>
  The exceptions that can leave the methods. \<open>Exception_Tool_error payload\<close> stands for
  \<^verbatim>\<open>Exception(f"Tool error: {payload}")\<close>: the message is kept as its payload and is not
  rendered to text.
\<close>

datatype pyexc =
    RuntimeError string
  | Exception_Tool_error json
  | OSError
  | ConnectionResetError
  | ProcessLookupError
  | ValueError
  | JSONDecodeError
  | TypeError
  | AttributeError
  | IndexError
  | KeyError

text \<open>
  What a call does: it returns a value, raises, never returns because it waits for input
  that does not come, or does something this model does not describe.
\<close>

datatype 'a outcome =
    Returns 'a
  | Raises pyexc
  | Blocks
  | Outside_Model

subsection \<open>Characters\<close>

definition newline :: char where
  "newline = CHR 0x0A"

definition dquote :: char where
  "dquote = CHR 0x22"

definition backslash :: char where
  "backslash = CHR 0x5C"

definition code_point :: "char \<Rightarrow> nat" where
  "code_point c = of_char c"

definition is_digit :: "char \<Rightarrow> bool" where
  "is_digit c = (c \<in> set ''0123456789'')"

definition digit_value :: "char \<Rightarrow> nat" where
  "digit_value c = code_point c - 48"

definition hex_digit :: "nat \<Rightarrow> char" where
  "hex_digit n = ''0123456789abcdef'' ! (n mod 16)"

definition hex_value :: "char \<Rightarrow> nat option" where
  "hex_value c =
     (if is_digit c then Some (code_point c - 48)
      else if c \<in> set ''abcdef'' then Some (code_point c - 87)
      else if c \<in> set ''ABCDEF'' then Some (code_point c - 55)
      else None)"

text \<open>
  CPython (3.11, and the later 3.x maintenance releases) refuses to convert between
  \<^verbatim>\<open>int\<close> and decimal text beyond a configurable number of digits, 4300 by default. The
  model does not describe integers beyond that length.
\<close>

definition max_str_digits :: nat where
  "max_str_digits = 4300"

subsection \<open>\<^verbatim>\<open>json.dumps\<close> with its default arguments\<close>

text \<open>
  \<^verbatim>\<open>encode_basestring_ascii\<close>: the pattern \<^verbatim>\<open>([\\"]|[^\ -~])\<close> selects the characters to
  escape; \<^verbatim>\<open>ESCAPE_DCT\<close> gives the two-character escapes, every other selected character
  becomes \<^verbatim>\<open>\uXXXX\<close> with four lower-case hexadecimal digits.
\<close>

definition escape_char :: "char \<Rightarrow> string" where
  "escape_char c =
     (if c = backslash then [backslash, backslash]
      else if c = dquote then [backslash, dquote]
      else if c = CHR 0x08 then [backslash, CHR ''b'']
      else if c = CHR 0x0C then [backslash, CHR ''f'']
      else if c = CHR 0x0A then [backslash, CHR ''n'']
      else if c = CHR 0x0D then [backslash, CHR ''r'']
      else if c = CHR 0x09 then [backslash, CHR ''t'']
      else if 32 \<le> code_point c \<and> code_point c \<le> 126 then [c]
      else [backslash, CHR ''u'', CHR ''0'', CHR ''0'',
            hex_digit (code_point c div 16), hex_digit (code_point c)])"

definition encode_basestring_ascii :: "string \<Rightarrow> string" where
  "encode_basestring_ascii s = [dquote] @ concat (map escape_char s) @ [dquote]"

fun nat_digits :: "nat \<Rightarrow> string" where
  "nat_digits n =
     (if n < 10 then [char_of (48 + n)]
      else nat_digits (n div 10) @ [char_of (48 + n mod 10)])"

declare nat_digits.simps [simp del]

definition int_repr :: "int \<Rightarrow> string" where
  "int_repr i = (if i < 0 then CHR ''-'' # nat_digits (nat (- i)) else nat_digits (nat i))"

text \<open>Python's \<^verbatim>\<open>sep.join(parts)\<close>.\<close>

fun join :: "string \<Rightarrow> string list \<Rightarrow> string" where
  "join sep [] = []"
| "join sep [x] = x"
| "join sep (x # y # ys) = x @ sep @ join sep (y # ys)"

text \<open>
  The encoder with the default separators \<^verbatim>\<open>', '\<close> and \<^verbatim>\<open>': '\<close>, no indentation and
  \<^verbatim>\<open>ensure_ascii=True\<close>.
\<close>

fun dumps_text :: "json \<Rightarrow> string"
  and dumps_items :: "json list \<Rightarrow> string list"
  and dumps_pairs :: "(string \<times> json) list \<Rightarrow> string list" where
  "dumps_text JNull = ''null''"
| "dumps_text (JBool b) = (if b then ''true'' else ''false'')"
| "dumps_text (JInt i) = int_repr i"
| "dumps_text (JStr s) = encode_basestring_ascii s"
| "dumps_text (JArr vs) = ''['' @ join '', '' (dumps_items vs) @ '']''"
| "dumps_text (JObj kvs) = ''{'' @ join '', '' (dumps_pairs kvs) @ ''}''"
| "dumps_items [] = []"
| "dumps_items (v # vs) = dumps_text v # dumps_items vs"
| "dumps_pairs [] = []"
| "dumps_pairs (kv # kvs) =
     (encode_basestring_ascii (fst kv) @ '': '' @ dumps_text (snd kv)) # dumps_pairs kvs"

text \<open>Whether every integer inside a value is short enough to be converted to text.\<close>

fun ints_convertible :: "json \<Rightarrow> bool"
  and ints_convertible_items :: "json list \<Rightarrow> bool"
  and ints_convertible_pairs :: "(string \<times> json) list \<Rightarrow> bool" where
  "ints_convertible JNull = True"
| "ints_convertible (JBool b) = True"
| "ints_convertible (JInt i) = (length (nat_digits (nat \<bar>i\<bar>)) \<le> max_str_digits)"
| "ints_convertible (JStr s) = True"
| "ints_convertible (JArr vs) = ints_convertible_items vs"
| "ints_convertible (JObj kvs) = ints_convertible_pairs kvs"
| "ints_convertible_items [] = True"
| "ints_convertible_items (v # vs) = (ints_convertible v \<and> ints_convertible_items vs)"
| "ints_convertible_pairs [] = True"
| "ints_convertible_pairs (kv # kvs) = (ints_convertible (snd kv) \<and> ints_convertible_pairs kvs)"

definition json_dumps :: "json \<Rightarrow> string outcome" where
  "json_dumps v = (if ints_convertible v then Returns (dumps_text v) else Outside_Model)"

subsection \<open>\<^verbatim>\<open>json.loads\<close> on ASCII text\<close>

text \<open>
  The decoder accepts the JSON grammar as CPython's scanner does. Only the class of the
  exception is kept, so every syntax error is \<open>JSONDecodeError\<close>. A parse is the value with
  the text that follows it, a syntax error, or \<open>Unsupported\<close> where the model does not
  follow the library: a number with a fraction or an exponent and the constants
  \<^verbatim>\<open>NaN\<close>, \<^verbatim>\<open>Infinity\<close>, \<^verbatim>\<open>-Infinity\<close> (floating point), an integer beyond the conversion
  limit, an escape \<^verbatim>\<open>\uXXXX\<close> of a code point from 256 on, and nesting deeper than
  \<open>max_nesting\<close> (CPython raises \<^verbatim>\<open>RecursionError\<close> at a depth that depends on the
  interpreter's stack).
\<close>

datatype 'a parse =
    Parsed 'a string
  | Syntax_Error
  | Unsupported

definition map_parse :: "('a \<Rightarrow> 'b) \<Rightarrow> 'a parse \<Rightarrow> 'b parse" where
  "map_parse f p =
     (case p of Parsed a rest \<Rightarrow> Parsed (f a) rest
      | Syntax_Error \<Rightarrow> Syntax_Error
      | Unsupported \<Rightarrow> Unsupported)"

definition max_nesting :: nat where
  "max_nesting = 100"

definition is_whitespace :: "char \<Rightarrow> bool" where
  "is_whitespace c = (c \<in> set [CHR '' '', CHR 0x09, CHR 0x0A, CHR 0x0D])"

definition skip_whitespace :: "string \<Rightarrow> string" where
  "skip_whitespace s = dropWhile is_whitespace s"

definition startswith :: "string \<Rightarrow> string \<Rightarrow> bool" where
  "startswith s p = (take (length p) s = p)"

text \<open>The table \<^verbatim>\<open>BACKSLASH\<close> of \<^verbatim>\<open>json.decoder\<close>.\<close>

definition unescape :: "char \<Rightarrow> char option" where
  "unescape e =
     (if e = dquote then Some dquote
      else if e = backslash then Some backslash
      else if e = CHR ''/'' then Some (CHR ''/'')
      else if e = CHR ''b'' then Some (CHR 0x08)
      else if e = CHR ''f'' then Some (CHR 0x0C)
      else if e = CHR ''n'' then Some (CHR 0x0A)
      else if e = CHR ''r'' then Some (CHR 0x0D)
      else if e = CHR ''t'' then Some (CHR 0x09)
      else None)"

definition hex4 :: "char \<Rightarrow> char \<Rightarrow> char \<Rightarrow> char \<Rightarrow> nat option" where
  "hex4 h1 h2 h3 h4 =
     (case (hex_value h1, hex_value h2, hex_value h3, hex_value h4) of
        (Some a, Some b, Some c, Some d) \<Rightarrow> Some (((a * 16 + b) * 16 + c) * 16 + d)
      | _ \<Rightarrow> None)"

text \<open>
  \<^verbatim>\<open>scanstring\<close> in strict mode, from the character after the opening quote: the string
  ends at the next unescaped quote, and a raw control character is an error.
\<close>

fun scanstring :: "string \<Rightarrow> string parse" where
  "scanstring [] = Syntax_Error"
| "scanstring (c # cs) =
     (if c = dquote then Parsed [] cs
      else if c = backslash then
        (case cs of
           [] \<Rightarrow> Syntax_Error
         | e # rest \<Rightarrow>
             if e = CHR ''u'' then
               (case rest of
                  h1 # h2 # h3 # h4 # rest' \<Rightarrow>
                    (case hex4 h1 h2 h3 h4 of
                       None \<Rightarrow> Syntax_Error
                     | Some n \<Rightarrow>
                         if n < 256 then map_parse ((#) (char_of n)) (scanstring rest')
                         else Unsupported)
                | _ \<Rightarrow> Syntax_Error)
             else
               (case unescape e of
                  None \<Rightarrow> Syntax_Error
                | Some ch \<Rightarrow> map_parse ((#) ch) (scanstring rest)))
      else if code_point c < 32 then Syntax_Error
      else map_parse ((#) c) (scanstring cs))"

text \<open>
  Numbers: \<^verbatim>\<open>-?(0|[1-9][0-9]*)\<close>, followed by an optional fraction \<^verbatim>\<open>\.[0-9]+\<close> and an
  optional exponent \<^verbatim>\<open>[eE][-+]?[0-9]+\<close>. With a fraction or an exponent the value is a
  float.
\<close>

definition float_follows :: "string \<Rightarrow> bool" where
  "float_follows rest =
     (case rest of
        c # d # more \<Rightarrow>
          (c = CHR ''.'' \<and> is_digit d) \<or>
          (c \<in> set ''eE'' \<and>
             (is_digit d \<or> (d \<in> set ''+-'' \<and> (case more of [] \<Rightarrow> False | x # _ \<Rightarrow> is_digit x))))
      | _ \<Rightarrow> False)"

definition digits_value :: "string \<Rightarrow> nat" where
  "digits_value ds = foldl (\<lambda>a d. 10 * a + digit_value d) 0 ds"

definition number_result :: "bool \<Rightarrow> string \<Rightarrow> string \<Rightarrow> json parse" where
  "number_result negative ds rest =
     (if float_follows rest \<or> max_str_digits < length ds then Unsupported
      else Parsed (JInt (if negative then - int (digits_value ds) else int (digits_value ds))) rest)"

definition match_number :: "string \<Rightarrow> json parse" where
  "match_number cs =
     (let negative = startswith cs ''-'';
          body = (if negative then tl cs else cs)
      in case body of
           [] \<Rightarrow> Syntax_Error
         | d # r \<Rightarrow>
             if d = CHR ''0'' then number_result negative [d] r
             else if is_digit d then
               number_result negative (d # takeWhile is_digit r) (dropWhile is_digit r)
             else Syntax_Error)"

text \<open>
  A dictionary built by successive \<^verbatim>\<open>d[key] = value\<close>: a repeated key keeps its first
  position and takes the last value.
\<close>

fun dict_setitem :: "string \<Rightarrow> json \<Rightarrow> (string \<times> json) list \<Rightarrow> (string \<times> json) list" where
  "dict_setitem k v [] = [(k, v)]"
| "dict_setitem k v (kv # d) =
     (if fst kv = k then (fst kv, v) # d else kv # dict_setitem k v d)"

definition dict_of_pairs :: "(string \<times> json) list \<Rightarrow> (string \<times> json) list" where
  "dict_of_pairs kvs = foldl (\<lambda>d kv. dict_setitem (fst kv) (snd kv) d) [] kvs"

text \<open>
  \<^verbatim>\<open>scan_once\<close> with the loops of \<^verbatim>\<open>_parse_array\<close> and \<^verbatim>\<open>_parse_object\<close>. The first
  argument is fuel for the recursion (each call consumes input, so twice the length of
  the text is enough; running out is \<open>Unsupported\<close>), the second the nesting depth.
  \<open>parse_array\<close> starts at the first element of a non-empty array, \<open>parse_object\<close> at the
  first key of a non-empty object.
\<close>

fun scan_once :: "nat \<Rightarrow> nat \<Rightarrow> string \<Rightarrow> json parse"
  and parse_array :: "nat \<Rightarrow> nat \<Rightarrow> string \<Rightarrow> json list parse"
  and parse_object :: "nat \<Rightarrow> nat \<Rightarrow> string \<Rightarrow> (string \<times> json) list parse" where
  "scan_once 0 depth cs = Unsupported"
| "scan_once (Suc n) depth [] = Syntax_Error"
| "scan_once (Suc n) depth (c # cs) =
     (if c = dquote then map_parse JStr (scanstring cs)
      else if c = CHR ''{'' then
        (if max_nesting \<le> depth then Unsupported
         else case skip_whitespace cs of
                [] \<Rightarrow> Syntax_Error
              | x # rest \<Rightarrow>
                  if x = CHR ''}'' then Parsed (JObj []) rest
                  else map_parse (\<lambda>kvs. JObj (dict_of_pairs kvs))
                         (parse_object n (Suc depth) (x # rest)))
      else if c = CHR ''['' then
        (if max_nesting \<le> depth then Unsupported
         else case skip_whitespace cs of
                [] \<Rightarrow> Syntax_Error
              | x # rest \<Rightarrow>
                  if x = CHR '']'' then Parsed (JArr []) rest
                  else map_parse JArr (parse_array n (Suc depth) (x # rest)))
      else if c = CHR ''n'' \<and> startswith cs ''ull'' then Parsed JNull (drop 3 cs)
      else if c = CHR ''t'' \<and> startswith cs ''rue'' then Parsed (JBool True) (drop 3 cs)
      else if c = CHR ''f'' \<and> startswith cs ''alse'' then Parsed (JBool False) (drop 4 cs)
      else if c = CHR ''N'' \<and> startswith cs ''aN'' then Unsupported
      else if c = CHR ''I'' \<and> startswith cs ''nfinity'' then Unsupported
      else if c = CHR ''-'' \<and> startswith cs ''Infinity'' then Unsupported
      else match_number (c # cs))"
| "parse_array 0 depth cs = Unsupported"
| "parse_array (Suc n) depth cs =
     (case scan_once n depth cs of
        Parsed v rest \<Rightarrow>
          (case skip_whitespace rest of
             [] \<Rightarrow> Syntax_Error
           | x # rest' \<Rightarrow>
               if x = CHR '']'' then Parsed [v] rest'
               else if x = CHR '','' then
                 map_parse ((#) v) (parse_array n depth (skip_whitespace rest'))
               else Syntax_Error)
      | Syntax_Error \<Rightarrow> Syntax_Error
      | Unsupported \<Rightarrow> Unsupported)"
| "parse_object 0 depth cs = Unsupported"
| "parse_object (Suc n) depth cs =
     (case cs of
        [] \<Rightarrow> Syntax_Error
      | q # cs1 \<Rightarrow>
          if q \<noteq> dquote then Syntax_Error
          else case scanstring cs1 of
                 Parsed key rest \<Rightarrow>
                   (case skip_whitespace rest of
                      [] \<Rightarrow> Syntax_Error
                    | colon # rest1 \<Rightarrow>
                        if colon \<noteq> CHR '':'' then Syntax_Error
                        else case scan_once n depth (skip_whitespace rest1) of
                               Parsed v rest2 \<Rightarrow>
                                 (case skip_whitespace rest2 of
                                    [] \<Rightarrow> Syntax_Error
                                  | x # rest3 \<Rightarrow>
                                      if x = CHR ''}'' then Parsed [(key, v)] rest3
                                      else if x = CHR '','' then
                                        map_parse ((#) (key, v))
                                          (parse_object n depth (skip_whitespace rest3))
                                      else Syntax_Error)
                             | Syntax_Error \<Rightarrow> Syntax_Error
                             | Unsupported \<Rightarrow> Unsupported)
               | Syntax_Error \<Rightarrow> Syntax_Error
               | Unsupported \<Rightarrow> Unsupported)"

text \<open>
  \<^verbatim>\<open>JSONDecoder.decode\<close>: white space, one value, white space, end of text; anything
  left over is \<^verbatim>\<open>Extra data\<close>.
\<close>

definition json_loads :: "string \<Rightarrow> json outcome" where
  "json_loads s =
     (case scan_once (2 * length s + 2) 0 (skip_whitespace s) of
        Parsed v rest \<Rightarrow>
          if skip_whitespace rest = [] then Returns v else Raises JSONDecodeError
      | Syntax_Error \<Rightarrow> Raises JSONDecodeError
      | Unsupported \<Rightarrow> Outside_Model)"

text \<open>
  \<^verbatim>\<open>bytes.decode()\<close> is UTF-8. On bytes below 128 it is the identity; other input is
  not modelled.
\<close>

definition bytes_decode :: "string \<Rightarrow> string outcome" where
  "bytes_decode b = (if list_all (\<lambda>c. code_point c < 128) b then Returns b else Outside_Model)"

subsection \<open>The child process and its pipes\<close>

text \<open>
  The object that \<^verbatim>\<open>asyncio.create_subprocess_exec\<close> returns, as far as the client
  uses it:
  \<^item> \<open>finished\<close>: the child has exited and the transport has noticed it and disconnected
    the pipes (what \<^verbatim>\<open>wait()\<close> waits for). From then on the transport holds no process:
    \<^verbatim>\<open>terminate()\<close> raises \<^verbatim>\<open>ProcessLookupError\<close>, \<^verbatim>\<open>stdin.write\<close> discards its data and
    \<^verbatim>\<open>stdin.drain()\<close> raises \<^verbatim>\<open>ConnectionResetError\<close>.
  \<^item> \<open>stdin_log\<close>: the chunks handed to \<^verbatim>\<open>stdin.write\<close> while the pipe was open, oldest
    first.
  \<^item> \<open>stdout_buf\<close>: the bytes of the child's standard output that the client has not
    consumed yet. It holds everything the child emits before it closes the stream or
    stops writing; nothing else arrives later.
  \<^item> \<open>stdout_eof\<close>: the child closes its standard output after those bytes.

  Not modelled: the short phase in which the child has exited and the transport has not
  noticed yet, a child that never reads its input (so that \<^verbatim>\<open>drain()\<close> waits), and a
  child that survives \<^verbatim>\<open>SIGTERM\<close> (so that \<^verbatim>\<open>wait()\<close> waits).
\<close>

record subprocess =
  finished :: bool
  stdin_log :: "string list"
  stdout_buf :: string
  stdout_eof :: bool

text \<open>The default limit of a \<^verbatim>\<open>StreamReader\<close>, \<^verbatim>\<open>2 ** 16\<close> bytes.\<close>

definition stream_limit :: nat where
  "stream_limit = 65536"

text \<open>
  \<^verbatim>\<open>StreamReader.readline()\<close>: the bytes up to and including the first newline; at the
  end of the stream the remaining bytes, possibly none; \<^verbatim>\<open>ValueError\<close> when the line
  without its newline is longer than the limit. With no newline in sight and the stream
  still open it waits. After a \<^verbatim>\<open>ValueError\<close> the model drops the whole line, whereas the
  stream reader drops the part of the line that had arrived when it gave up: only the
  outcome of that call is modelled, not what later calls read.
\<close>

definition readline :: "subprocess \<Rightarrow> string outcome \<times> subprocess" where
  "readline p =
     (let line = takeWhile (\<lambda>c. c \<noteq> newline) (stdout_buf p);
          rest = dropWhile (\<lambda>c. c \<noteq> newline) (stdout_buf p)
      in case rest of
           nl # rest' \<Rightarrow>
             if stream_limit < length line then (Raises ValueError, p\<lparr>stdout_buf := rest'\<rparr>)
             else (Returns (line @ [nl]), p\<lparr>stdout_buf := rest'\<rparr>)
         | [] \<Rightarrow>
             if stream_limit < length line then (Raises ValueError, p\<lparr>stdout_buf := []\<rparr>)
             else if stdout_eof p then (Returns line, p\<lparr>stdout_buf := []\<rparr>)
             else (Blocks, p))"

subsection \<open>Operators of Python on decoded values\<close>

definition and_then :: "'a outcome \<Rightarrow> ('a \<Rightarrow> 'b outcome) \<Rightarrow> 'b outcome" where
  "and_then r f =
     (case r of Returns a \<Rightarrow> f a
      | Raises e \<Rightarrow> Raises e
      | Blocks \<Rightarrow> Blocks
      | Outside_Model \<Rightarrow> Outside_Model)"

fun is_substring :: "string \<Rightarrow> string \<Rightarrow> bool" where
  "is_substring p [] = (p = [])"
| "is_substring p (c # cs) = (startswith (c # cs) p \<or> is_substring p cs)"

text \<open>
  \<^verbatim>\<open>key in x\<close> for a string \<open>key\<close>: a key of a dictionary, an element of a list, a
  substring of a string; the other values are not containers.
\<close>

fun py_in :: "string \<Rightarrow> json \<Rightarrow> bool outcome" where
  "py_in key (JObj kvs) = Returns (key \<in> set (map fst kvs))"
| "py_in key (JArr vs) = Returns (JStr key \<in> set vs)"
| "py_in key (JStr s) = Returns (is_substring key s)"
| "py_in key JNull = Raises TypeError"
| "py_in key (JBool b) = Raises TypeError"
| "py_in key (JInt i) = Raises TypeError"

text \<open>\<^verbatim>\<open>x[key]\<close> for a string \<open>key\<close>.\<close>

fun py_getitem :: "json \<Rightarrow> string \<Rightarrow> json outcome" where
  "py_getitem (JObj kvs) key =
     (case map_of kvs key of Some v \<Rightarrow> Returns v | None \<Rightarrow> Raises KeyError)"
| "py_getitem (JArr vs) key = Raises TypeError"
| "py_getitem (JStr s) key = Raises TypeError"
| "py_getitem JNull key = Raises TypeError"
| "py_getitem (JBool b) key = Raises TypeError"
| "py_getitem (JInt i) key = Raises TypeError"

text \<open>\<^verbatim>\<open>x.get(key, dflt)\<close>: only a dictionary has the method.\<close>

fun py_get :: "json \<Rightarrow> string \<Rightarrow> json \<Rightarrow> json outcome" where
  "py_get (JObj kvs) key dflt =
     Returns (case map_of kvs key of Some v \<Rightarrow> v | None \<Rightarrow> dflt)"
| "py_get (JArr vs) key dflt = Raises AttributeError"
| "py_get (JStr s) key dflt = Raises AttributeError"
| "py_get JNull key dflt = Raises AttributeError"
| "py_get (JBool b) key dflt = Raises AttributeError"
| "py_get (JInt i) key dflt = Raises AttributeError"

text \<open>
  \<^verbatim>\<open>x[0]\<close>: the first element of a list, the first character of a string, a missing key
  of a dictionary (its keys are strings).
\<close>

fun py_getitem_0 :: "json \<Rightarrow> json outcome" where
  "py_getitem_0 (JArr []) = Raises IndexError"
| "py_getitem_0 (JArr (v # vs)) = Returns v"
| "py_getitem_0 (JStr []) = Raises IndexError"
| "py_getitem_0 (JStr (c # cs)) = Returns (JStr [c])"
| "py_getitem_0 (JObj kvs) = Raises KeyError"
| "py_getitem_0 JNull = Raises TypeError"
| "py_getitem_0 (JBool b) = Raises TypeError"
| "py_getitem_0 (JInt i) = Raises TypeError"

subsection \<open>The class \<^verbatim>\<open>MCPClient\<close>\<close>

record client =
  process :: "subprocess option"
  request_id :: int

text \<open>\<^verbatim>\<open>__init__\<close>: no process, the counter at 0.\<close>

definition init :: client where
  "init = \<lparr>process = None, request_id = 0\<rparr>"

text \<open>
  \<^verbatim>\<open>start_server\<close>: \<open>spawn\<close> is what \<^verbatim>\<open>create_subprocess_exec\<close> does, an exception or the new
  process. The assignment happens only when the call returns.
\<close>

definition start_server :: "pyexc + subprocess \<Rightarrow> client \<Rightarrow> unit outcome \<times> client" where
  "start_server spawn c =
     (case spawn of
        Inl e \<Rightarrow> (Raises e, c)
      | Inr p \<Rightarrow> (Returns (), c\<lparr>process := Some p\<rparr>))"

text \<open>The dictionary literal of \<^verbatim>\<open>send_request\<close>, lines 38 to 43.\<close>

definition build_request :: "int \<Rightarrow> string \<Rightarrow> json \<Rightarrow> json" where
  "build_request rid method params =
     JObj [(''jsonrpc'', JStr ''2.0''), (''id'', JInt rid), (''method'', JStr method),
           (''params'', params)]"

text \<open>\<^verbatim>\<open>json.loads(response_line.decode())\<close>, line 50.\<close>

definition decode_response :: "string \<Rightarrow> json outcome" where
  "decode_response response_line = and_then (bytes_decode response_line) json_loads"

text \<open>
  \<^verbatim>\<open>send_request\<close>. The text that \<^verbatim>\<open>json.dumps\<close> returns is ASCII, so \<^verbatim>\<open>encode()\<close> leaves
  it as it is.
\<close>

definition send_request :: "client \<Rightarrow> string \<Rightarrow> json \<Rightarrow> json outcome \<times> client" where
  "send_request c method params =
     (case process c of
        None \<Rightarrow> (Raises (RuntimeError ''Server not started''), c)
      | Some p \<Rightarrow>
          let c1 = c\<lparr>request_id := request_id c + 1\<rparr>;
              request = build_request (request_id c1) method params
          in case json_dumps request of
               Returns text \<Rightarrow>
                 let request_json = text @ [newline]
                 in if finished p then (Raises ConnectionResetError, c1)
                    else
                      let p1 = p\<lparr>stdin_log := stdin_log p @ [request_json]\<rparr>
                      in (case readline p1 of
                            (Returns response_line, p2) \<Rightarrow>
                              (decode_response response_line, c1\<lparr>process := Some p2\<rparr>)
                          | (Raises e, p2) \<Rightarrow> (Raises e, c1\<lparr>process := Some p2\<rparr>)
                          | (Blocks, p2) \<Rightarrow> (Blocks, c1\<lparr>process := Some p2\<rparr>)
                          | (Outside_Model, p2) \<Rightarrow> (Outside_Model, c1\<lparr>process := Some p2\<rparr>))
             | Raises e \<Rightarrow> (Raises e, c1)
             | Blocks \<Rightarrow> (Blocks, c1)
             | Outside_Model \<Rightarrow> (Outside_Model, c1))"

text \<open>
  The expression of line 64,
  \<^verbatim>\<open>response.get("result", {}).get("content", [{}])[0].get("text")\<close>.
\<close>

definition extract_text :: "json \<Rightarrow> json outcome" where
  "extract_text response =
     and_then (py_get response ''result'' (JObj [])) (\<lambda>result.
     and_then (py_get result ''content'' (JArr [JObj []])) (\<lambda>content.
     and_then (py_getitem_0 content) (\<lambda>item.
     py_get item ''text'' JNull)))"

text \<open>Lines 61 to 64 of \<^verbatim>\<open>call_tool\<close>: what happens to the decoded response.\<close>

definition handle_response :: "json \<Rightarrow> json outcome" where
  "handle_response response =
     and_then (py_in ''error'' response) (\<lambda>has_error.
       if has_error then
         and_then (py_getitem response ''error'') (\<lambda>payload.
           Raises (Exception_Tool_error payload))
       else extract_text response)"

text \<open>The dictionary literal that \<^verbatim>\<open>call_tool\<close> passes as \<open>params\<close>, lines 56 to 59.\<close>

definition tool_call_params :: "string \<Rightarrow> json \<Rightarrow> json" where
  "tool_call_params tool_name arguments =
     JObj [(''name'', JStr tool_name), (''arguments'', arguments)]"

definition call_tool :: "client \<Rightarrow> string \<Rightarrow> json \<Rightarrow> json outcome \<times> client" where
  "call_tool c tool_name arguments =
     (case send_request c ''tools/call'' (tool_call_params tool_name arguments) of
        (response, c') \<Rightarrow> (and_then response handle_response, c'))"

text \<open>
  \<^verbatim>\<open>stop_server\<close>: with a process, \<^verbatim>\<open>terminate()\<close> and then \<^verbatim>\<open>wait()\<close>; the field
  \<open>process\<close> keeps the object.
\<close>

definition stop_server :: "client \<Rightarrow> unit outcome \<times> client" where
  "stop_server c =
     (case process c of
        None \<Rightarrow> (Returns (), c)
      | Some p \<Rightarrow>
          if finished p then (Raises ProcessLookupError, c)
          else (Returns (), c\<lparr>process := Some (p\<lparr>finished := True, stdout_eof := True\<rparr>)\<rparr>))"

subsection \<open>Sequences of calls\<close>

text \<open>
  The two methods that issue a request, and a caller that makes one call after the other
  on the same object. An exception ends the call that raised it and the caller goes on.
  The sequence ends at a call that never returns, at a call that leaves the model, and at
  a \<^verbatim>\<open>ValueError\<close> (an over-long line: what the stream reader keeps of such a line
  depends on how much of it had arrived, which the model does not say). \<open>performed\<close>
  counts the calls that are made.
\<close>

datatype request_op =
    Send_request string json
  | Call_tool string json

fun perform :: "client \<Rightarrow> request_op \<Rightarrow> json outcome \<times> client" where
  "perform c (Send_request method params) = send_request c method params"
| "perform c (Call_tool tool_name arguments) = call_tool c tool_name arguments"

fun op_method :: "request_op \<Rightarrow> string" where
  "op_method (Send_request method params) = method"
| "op_method (Call_tool tool_name arguments) = ''tools/call''"

fun op_params :: "request_op \<Rightarrow> json" where
  "op_params (Send_request method params) = params"
| "op_params (Call_tool tool_name arguments) = tool_call_params tool_name arguments"

definition ends_sequence :: "json outcome \<Rightarrow> bool" where
  "ends_sequence r = (r = Blocks \<or> r = Outside_Model \<or> r = Raises ValueError)"

fun perform_all :: "client \<Rightarrow> request_op list \<Rightarrow> client" where
  "perform_all c [] = c"
| "perform_all c (x # xs) =
     (case perform c x of
        (r, c') \<Rightarrow> if ends_sequence r then c' else perform_all c' xs)"

fun performed :: "client \<Rightarrow> request_op list \<Rightarrow> nat" where
  "performed c [] = 0"
| "performed c (x # xs) =
     (case perform c x of
        (r, c') \<Rightarrow> if ends_sequence r then 1 else Suc (performed c' xs))"

text \<open>The chunks written so far to the child of a client, and the line of a request.\<close>

definition written :: "client \<Rightarrow> string list" where
  "written c = (case process c of None \<Rightarrow> [] | Some p \<Rightarrow> stdin_log p)"

definition request_line :: "int \<Rightarrow> string \<Rightarrow> json \<Rightarrow> string" where
  "request_line rid method params = dumps_text (build_request rid method params) @ [newline]"

text \<open>
  The lines of the first \<open>n\<close> calls of a sequence made on a client, each with the id that the
  counter of the client has reached at that call.
\<close>

definition request_lines :: "client \<Rightarrow> request_op list \<Rightarrow> nat \<Rightarrow> string list" where
  "request_lines c xs n =
     map (\<lambda>k. request_line (request_id c + 1 + int k) (op_method (xs ! k)) (op_params (xs ! k)))
       [0..<n]"

text \<open>The clients of the examples: a freshly started child with a given output.\<close>

definition child :: "string \<Rightarrow> bool \<Rightarrow> subprocess" where
  "child output closes =
     \<lparr>finished = False, stdin_log = [], stdout_buf = output, stdout_eof = closes\<rparr>"

definition started :: "string \<Rightarrow> bool \<Rightarrow> client" where
  "started output closes = snd (start_server (Inr (child output closes)) init)"

text \<open>
  The client of an example after its first request, with the rest of the child's output
  still unread.
\<close>

definition after_first_call :: "string \<Rightarrow> json \<Rightarrow> string \<Rightarrow> bool \<Rightarrow> client" where
  "after_first_call method params rest closes =
     \<lparr>process = Some \<lparr>finished = False, stdin_log = [request_line 1 method params],
                        stdout_buf = rest, stdout_eof = closes\<rparr>,
      request_id = 1\<rparr>"

text \<open>Response lines and arguments used in the examples.\<close>

definition response_57 :: string where
  \<open>response_57 = ''{"result":{"content":[{"text":"57"}]}}''\<close>

definition response_error :: string where
  \<open>response_error = ''{"error":{"message":"population must be non-empty"}}''\<close>

definition response_no_result :: string where
  \<open>response_no_result = ''{"jsonrpc":"2.0","id":1}''\<close>

definition response_no_content :: string where
  \<open>response_no_content = ''{"jsonrpc":"2.0","id":1,"result":{}}''\<close>

definition response_no_text :: string where
  \<open>response_no_text = ''{"jsonrpc":"2.0","id":1,"result":{"content":[{}]}}''\<close>

definition response_empty_content :: string where
  \<open>response_empty_content = ''{"jsonrpc":"2.0","id":1,"result":{"content":[]}}''\<close>

definition response_other_id :: string where
  \<open>response_other_id = ''{"jsonrpc":"2.0","id":999,"result":{}}''\<close>

definition random_int_arguments :: json where
  "random_int_arguments = JObj [(''low'', JInt 1), (''high'', JInt 100)]"

definition empty_population :: json where
  "empty_population = JObj [(''population'', JArr [])]"

text \<open>
  A child that answers the first request with an error and the second with a result, the
  two calls made on it, and the client after each call.
\<close>

definition demo_output :: string where
  "demo_output = response_error @ newline # response_57 @ [newline]"

definition demo_calls :: "request_op list" where
  "demo_calls =
     [Call_tool ''random_choices'' empty_population, Call_tool ''random_int'' random_int_arguments]"

definition demo_after_first :: client where
  "demo_after_first =
     after_first_call ''tools/call'' (tool_call_params ''random_choices'' empty_population)
       (response_57 @ [newline]) False"

definition demo_after_second :: client where
  "demo_after_second =
     \<lparr>process = Some \<lparr>finished = False,
         stdin_log =
           [request_line 1 ''tools/call'' (tool_call_params ''random_choices'' empty_population),
            request_line 2 ''tools/call'' (tool_call_params ''random_int'' random_int_arguments)],
         stdout_buf = [], stdout_eof = False\<rparr>,
      request_id = 2\<rparr>"

section \<open>Lemmas about the model\<close>

lemma newline_notin_escape_char: "newline \<notin> set (escape_char c)"
proof -
  have mem: "hex_digit n \<in> set ''0123456789abcdef''" for n
    unfolding hex_digit_def by (rule nth_mem) simp
  have "hex_digit n \<noteq> newline" for n
    using mem [of n] by (auto simp: newline_def)
  then have "newline \<noteq> hex_digit n" for n
    by metis
  then show ?thesis
    by (simp add: escape_char_def backslash_def dquote_def) (simp add: newline_def)
qed

lemma newline_notin_basestring: "newline \<notin> set (encode_basestring_ascii s)"
  using newline_notin_escape_char by (auto simp: encode_basestring_ascii_def newline_def dquote_def)

lemma decimal_char_not_newline: "d < 10 \<Longrightarrow> char_of (48 + d :: nat) \<noteq> newline"
proof
  assume d: "d < 10" and "char_of (48 + d) = newline"
  then have "of_char (char_of (48 + d) :: char) = (of_char newline :: nat)" by simp
  then have "(48 + d) mod 256 = (10::nat)" by (simp add: newline_def of_char_of)
  with d show False by simp
qed

lemma newline_notin_nat_digits: "newline \<notin> set (nat_digits n)"
proof (induction n rule: nat_digits.induct)
  case (1 n)
  show ?case
  proof (cases "n < 10")
    case True
    then show ?thesis
      using decimal_char_not_newline [of n] by (simp add: nat_digits.simps [of n])
  next
    case False
    have "n mod 10 < 10" by simp
    then have "char_of (48 + n mod 10) \<noteq> newline" by (rule decimal_char_not_newline)
    with False 1 show ?thesis
      by (auto simp: nat_digits.simps [of n])
  qed
qed

lemma newline_notin_int_repr: "newline \<notin> set (int_repr i)"
  using newline_notin_nat_digits by (simp add: int_repr_def newline_def)

lemma set_join: "set (join sep xs) \<subseteq> set sep \<union> \<Union> (set ` set xs)"
  by (induction sep xs rule: join.induct) auto

lemma newline_notin_join:
  "newline \<notin> set sep \<Longrightarrow> \<forall>x\<in>set xs. newline \<notin> set x \<Longrightarrow> newline \<notin> set (join sep xs)"
  using set_join [of sep xs] by auto

lemma newline_notin_dumps:
  "newline \<notin> set (dumps_text v)"
  "\<forall>x\<in>set (dumps_items vs). newline \<notin> set x"
  "\<forall>x\<in>set (dumps_pairs kvs). newline \<notin> set x"
proof (induction v and vs and kvs rule: dumps_text_dumps_items_dumps_pairs.induct)
  case (5 vs)
  then show ?case using newline_notin_join [of "'', ''" "dumps_items vs"]
    by (simp add: newline_def)
next
  case (6 kvs)
  then show ?case using newline_notin_join [of "'', ''" "dumps_pairs kvs"]
    by (simp add: newline_def)
next
  case (10 kv kvs)
  then show ?case using newline_notin_basestring [of "fst kv"]
    by (simp add: newline_def)
qed (simp_all add: newline_notin_int_repr newline_notin_basestring, simp_all add: newline_def)

lemma digit_value_decimal_char: "d < 10 \<Longrightarrow> digit_value (char_of (48 + d :: nat)) = d"
  by (simp add: digit_value_def code_point_def of_char_of)

lemma digits_value_snoc: "digits_value (ds @ [d]) = 10 * digits_value ds + digit_value d"
  by (simp add: digits_value_def)

lemma digits_value_nat_digits: "digits_value (nat_digits n) = n"
proof (induction n rule: nat_digits.induct)
  case (1 n)
  show ?case
  proof (cases "n < 10")
    case True
    then show ?thesis
      by (simp add: nat_digits.simps [of n] digits_value_def digit_value_decimal_char)
  next
    case False
    have "digit_value (char_of (48 + n mod 10)) = n mod 10"
      by (rule digit_value_decimal_char) simp
    with False 1 show ?thesis
      by (simp add: nat_digits.simps [of n] digits_value_snoc)
  qed
qed

lemma nat_digits_inject: "nat_digits m = nat_digits n \<Longrightarrow> m = n"
  by (metis digits_value_nat_digits)

lemma decimal_char_plain:
  "d < 10 \<Longrightarrow> char_of (48 + d :: nat) \<noteq> CHR '',''"
  "d < 10 \<Longrightarrow> char_of (48 + d :: nat) \<noteq> CHR ''-''"
proof -
  assume d: "d < 10"
  have "of_char (char_of (48 + d) :: char) = 48 + d" using d by (simp add: of_char_of)
  moreover have "of_char CHR '','' = (44::nat)" "of_char CHR ''-'' = (45::nat)" by simp_all
  ultimately show "char_of (48 + d :: nat) \<noteq> CHR '',''" "char_of (48 + d :: nat) \<noteq> CHR ''-''"
    by fastforce+
qed

lemma plain_notin_nat_digits:
  "CHR '','' \<notin> set (nat_digits n)" "CHR ''-'' \<notin> set (nat_digits n)"
proof (induction n rule: nat_digits.induct)
  case (1 n)
  {
    case 1
    show ?case
    proof (cases "n < 10")
      case True
      then show ?thesis using decimal_char_plain(1) [of n] by (simp add: nat_digits.simps [of n])
    next
      case False
      with "1.IH"(1) decimal_char_plain(1) [of "n mod 10"] show ?thesis
        by (simp add: nat_digits.simps [of n])
    qed
  next
    case 2
    show ?case
    proof (cases "n < 10")
      case True
      then show ?thesis using decimal_char_plain(2) [of n] by (simp add: nat_digits.simps [of n])
    next
      case False
      with "1.IH"(2) decimal_char_plain(2) [of "n mod 10"] show ?thesis
        by (simp add: nat_digits.simps [of n])
    qed
  }
qed

lemma nat_digits_not_Nil: "nat_digits n \<noteq> []"
  by (simp add: nat_digits.simps [of n])

lemma int_repr_inject: "int_repr i = int_repr j \<Longrightarrow> i = j"
proof -
  assume eq: "int_repr i = int_repr j"
  have mixed: False if "CHR ''-'' # nat_digits m = nat_digits n" for m n
  proof -
    from that have "CHR ''-'' \<in> set (nat_digits n)" by (metis list.set_intros(1))
    with plain_notin_nat_digits(2) show False by blast
  qed
  show "i = j"
  proof (cases "i < 0")
    case True
    show ?thesis
    proof (cases "j < 0")
      case True
      with \<open>i < 0\<close> eq have "nat (- i) = nat (- j)"
        by (simp add: int_repr_def nat_digits_inject)
      with True \<open>i < 0\<close> show ?thesis by simp
    next
      case False
      with True eq mixed [of "nat (- i)" "nat j"] show ?thesis by (simp add: int_repr_def)
    qed
  next
    case False
    show ?thesis
    proof (cases "j < 0")
      case True
      with False eq mixed [of "nat (- j)" "nat i"] show ?thesis by (simp add: int_repr_def)
    next
      case j: False
      with False eq have "nat i = nat j" by (simp add: int_repr_def nat_digits_inject)
      with False j show ?thesis by simp
    qed
  qed
qed

lemma comma_notin_int_repr: "CHR '','' \<notin> set (int_repr i)"
  using plain_notin_nat_digits(1) by (simp add: int_repr_def)

lemma append_separator_eq:
  assumes "s \<notin> set a" "s \<notin> set b" "a @ s # x = b @ s # y"
  shows "a = b"
proof -
  have "takeWhile (\<lambda>c. c \<noteq> s) (a @ s # x) = a" "takeWhile (\<lambda>c. c \<noteq> s) (b @ s # y) = b"
    using assms(1,2) by (auto simp: takeWhile_tail)
  with assms(3) show ?thesis by simp
qed

lemma request_line_shape:
  \<open>request_line i m ps =
     ''{"jsonrpc": "2.0", "id": '' @ int_repr i @
     CHR '','' # '' "method": '' @ encode_basestring_ascii m @ '', "params": '' @ dumps_text ps @
     ''}'' @ [newline]\<close>
proof -
  have \<open>encode_basestring_ascii ''jsonrpc'' = ''"jsonrpc"''\<close>
    \<open>encode_basestring_ascii ''2.0'' = ''"2.0"''\<close>
    \<open>encode_basestring_ascii ''id'' = ''"id"''\<close>
    \<open>encode_basestring_ascii ''method'' = ''"method"''\<close>
    \<open>encode_basestring_ascii ''params'' = ''"params"''\<close>
    by code_simp+
  then show ?thesis
    by (simp add: request_line_def build_request_def)
qed

lemma request_line_inject: "request_line i m ps = request_line j m' ps' \<Longrightarrow> i = j"
  unfolding request_line_shape
  using append_separator_eq [OF comma_notin_int_repr comma_notin_int_repr] int_repr_inject
  by (metis same_append_eq)

lemma request_id_field: "py_getitem (build_request rid m ps) ''id'' = Returns (JInt rid)"
  by (simp add: build_request_def)

lemma json_dumps_cases: "json_dumps v = Returns (dumps_text v) \<or> json_dumps v = Outside_Model"
  by (simp add: json_dumps_def)

lemma json_dumps_Returns: "json_dumps v = Returns text \<Longrightarrow> text = dumps_text v"
  by (simp add: json_dumps_def split: if_splits)

lemma readline_keeps:
  "stdin_log (snd (readline p)) = stdin_log p" "finished (snd (readline p)) = finished p"
  by (simp_all add: readline_def Let_def split: list.splits)

lemma readline_line:
  assumes "stdout_buf p = line @ newline # rest" "newline \<notin> set line"
    "length line \<le> stream_limit"
  shows "readline p = (Returns (line @ [newline]), p\<lparr>stdout_buf := rest\<rparr>)"
proof -
  have tw: "takeWhile (\<lambda>c. c \<noteq> newline) (stdout_buf p) = line"
    using assms(1,2) by (auto simp: takeWhile_tail takeWhile_eq_all_conv)
  have dw: "dropWhile (\<lambda>c. c \<noteq> newline) (stdout_buf p) = newline # rest"
    using assms(1,2) by (auto simp: dropWhile_append3)
  show ?thesis
    unfolding readline_def Let_def tw dw using assms(3) by simp
qed


lemma send_request_not_started:
  "process c = None \<Longrightarrow> send_request c m ps = (Raises (RuntimeError ''Server not started''), c)"
  by (simp add: send_request_def)

lemma send_request_finished:
  assumes "process c = Some p" "finished p"
  shows "send_request c m ps =
    (if ints_convertible (build_request (request_id c + 1) m ps)
     then Raises ConnectionResetError else Outside_Model,
     c\<lparr>request_id := request_id c + 1\<rparr>)"
  using assms by (simp add: send_request_def json_dumps_def Let_def)

lemma send_request_unconvertible:
  assumes "process c = Some p" "\<not> ints_convertible (build_request (request_id c + 1) m ps)"
  shows "send_request c m ps = (Outside_Model, c\<lparr>request_id := request_id c + 1\<rparr>)"
  using assms by (simp add: send_request_def json_dumps_def Let_def)

lemma send_request_running:
  assumes "process c = Some p" "\<not> finished p"
    "ints_convertible (build_request (request_id c + 1) m ps)"
  shows "send_request c m ps =
    (and_then (fst (readline (p\<lparr>stdin_log := stdin_log p @ [request_line (request_id c + 1) m ps]\<rparr>)))
       decode_response,
     c\<lparr>request_id := request_id c + 1,
       process := Some (snd (readline (p\<lparr>stdin_log := stdin_log p @ [request_line (request_id c + 1) m ps]\<rparr>)))\<rparr>)"
  using assms
  by (simp add: send_request_def json_dumps_def Let_def request_line_def and_then_def
      split: prod.splits outcome.splits)

lemma send_request_effect:
  assumes "send_request c m ps = (r, c')"
  shows "(process c = None \<and> c' = c \<and> r = Raises (RuntimeError ''Server not started'')) \<or>
    (\<exists>p. process c = Some p \<and> request_id c' = request_id c + 1 \<and>
       ((process c' = Some p \<and> (r = Outside_Model \<or> (finished p \<and> r = Raises ConnectionResetError))) \<or>
        (\<not> finished p \<and> (\<exists>p'. process c' = Some p' \<and> \<not> finished p' \<and>
           stdin_log p' = stdin_log p @ [request_line (request_id c + 1) m ps]))))"
proof (cases "process c")
  case None
  with assms show ?thesis by (simp add: send_request_not_started)
next
  case (Some p)
  show ?thesis
  proof (cases "ints_convertible (build_request (request_id c + 1) m ps)")
    case False
    with Some assms show ?thesis by (auto simp: send_request_unconvertible)
  next
    case True
    show ?thesis
    proof (cases "finished p")
      case True
      with Some assms \<open>ints_convertible _\<close> show ?thesis by (auto simp: send_request_finished)
    next
      case False
      with Some assms True show ?thesis
        by (auto simp: send_request_running readline_keeps)
    qed
  qed
qed

lemma and_then_simps [simp]:
  "and_then (Returns a) f = f a"
  "and_then (Raises e) f = Raises e"
  "and_then Blocks f = Blocks"
  "and_then Outside_Model f = Outside_Model"
  by (simp_all add: and_then_def)

lemma call_tool_eq:
  "call_tool c t a =
     (and_then (fst (send_request c ''tools/call'' (tool_call_params t a))) handle_response,
      snd (send_request c ''tools/call'' (tool_call_params t a)))"
  by (simp add: call_tool_def split: prod.splits)

lemma perform_eq:
  "perform c x =
     ((case x of Send_request m ps \<Rightarrow> fst (send_request c (op_method x) (op_params x))
       | Call_tool t a \<Rightarrow> and_then (fst (send_request c (op_method x) (op_params x))) handle_response),
      snd (send_request c (op_method x) (op_params x)))"
  by (cases x) (simp_all add: call_tool_eq)

lemma perform_effect:
  assumes "perform c x = (r, c')"
  shows "(process c = None \<and> c' = c) \<or>
    (\<exists>p. process c = Some p \<and> request_id c' = request_id c + 1 \<and>
       ((process c' = Some p \<and> (r = Outside_Model \<or> finished p)) \<or>
        (\<not> finished p \<and> (\<exists>p'. process c' = Some p' \<and> \<not> finished p' \<and>
           stdin_log p' = stdin_log p @ [request_line (request_id c + 1) (op_method x) (op_params x)]))))"
proof -
  define r0 where "r0 = fst (send_request c (op_method x) (op_params x))"
  have sr: "send_request c (op_method x) (op_params x) = (r0, c')"
    using assms by (simp add: perform_eq r0_def prod_eq_iff)
  have r: "r = (case x of Send_request m ps \<Rightarrow> r0 | Call_tool t a \<Rightarrow> and_then r0 handle_response)"
    using assms by (cases x) (auto simp: perform_eq r0_def)
  have "r0 = Outside_Model \<Longrightarrow> r = Outside_Model"
    using r by (cases x) simp_all
  with send_request_effect [OF sr] show ?thesis by blast
qed

lemma ends_sequence_simps [simp]:
  "ends_sequence Blocks" "ends_sequence Outside_Model" "ends_sequence (Raises ValueError)"
  "\<not> ends_sequence (Returns v)"
  "\<not> ends_sequence (Raises (RuntimeError s))"
  "\<not> ends_sequence (Raises ConnectionResetError)"
  by (simp_all add: ends_sequence_def)

lemma performed_le_length: "performed c xs \<le> length xs"
  by (induction xs arbitrary: c) (auto split: prod.splits)

lemma performed_positive: "xs \<noteq> [] \<Longrightarrow> 0 < performed c xs"
  by (cases xs) (auto split: prod.splits)

lemma request_lines_0 [simp]: "request_lines c xs 0 = []"
  by (simp add: request_lines_def)

lemma request_lines_Suc:
  assumes "request_id c' = request_id c + 1"
  shows "request_lines c (x # xs) (Suc n) =
    request_line (request_id c + 1) (op_method x) (op_params x) # request_lines c' xs n"
proof -
  have "[0..<Suc n] = 0 # map Suc [0..<n]"
    by (simp add: upt_conv_Cons map_Suc_upt del: upt_Suc)
  then show ?thesis
    using assms by (simp add: request_lines_def o_def add.assoc del: upt_Suc)
qed

lemma perform_not_started:
  "process c = None \<Longrightarrow> perform c x = (Raises (RuntimeError ''Server not started''), c)"
  by (cases x) (simp_all add: call_tool_def send_request_not_started)

lemma perform_all_not_started: "process c = None \<Longrightarrow> perform_all c xs = c"
  by (induction xs) (simp_all add: perform_not_started)

lemma perform_counter:
  "process c = Some p \<Longrightarrow>
     request_id (snd (perform c x)) = request_id c + 1 \<and> process (snd (perform c x)) \<noteq> None"
  using perform_effect [of c x "fst (perform c x)" "snd (perform c x)"] by auto

lemma perform_all_counter:
  "process c = Some p \<Longrightarrow> request_id (perform_all c xs) = request_id c + int (performed c xs)"
proof (induction xs arbitrary: c p)
  case Nil
  show ?case by simp
next
  case (Cons x xs)
  obtain r c' where step: "perform c x = (r, c')" by (cases "perform c x")
  with perform_counter [OF Cons.prems, of x]
  obtain p' where c': "request_id c' = request_id c + 1" "process c' = Some p'" by auto
  show ?case
    using step c'(1) Cons.IH [OF c'(2)] by simp
qed

lemma perform_finished:
  assumes "process c = Some p" "finished p"
  shows "process (snd (perform c x)) = Some p"
  using assms by (simp add: perform_eq send_request_finished)

lemma perform_all_finished:
  "process c = Some p \<Longrightarrow> finished p \<Longrightarrow> process (perform_all c xs) = Some p"
proof (induction xs arbitrary: c)
  case Nil
  then show ?case by simp
next
  case (Cons x xs)
  obtain r c' where step: "perform c x = (r, c')" by (cases "perform c x")
  with perform_finished [OF Cons.prems, of x] have "process c' = Some p" by simp
  with step Cons show ?case by simp
qed

lemma perform_running:
  assumes "process c = Some p" "\<not> finished p"
    "ints_convertible (build_request (request_id c + 1) (op_method x) (op_params x))"
  shows "\<exists>p'. process (snd (perform c x)) = Some p' \<and> \<not> finished p' \<and>
    request_id (snd (perform c x)) = request_id c + 1 \<and>
    stdin_log p' = stdin_log p @ [request_line (request_id c + 1) (op_method x) (op_params x)]"
  using assms by (simp add: perform_eq send_request_running readline_keeps)

lemma perform_all_running:
  assumes "process c = Some p" "\<not> finished p"
    "\<forall>k<performed c xs. ints_convertible
       (build_request (request_id c + 1 + int k) (op_method (xs ! k)) (op_params (xs ! k)))"
  shows "written (perform_all c xs) = written c @ request_lines c xs (performed c xs)"
  using assms
proof (induction xs arbitrary: c p)
  case Nil
  show ?case by simp
next
  case (Cons x xs)
  obtain r c' where step: "perform c x = (r, c')" by (cases "perform c x")
  have pos: "0 < performed c (x # xs)" by (rule performed_positive) simp
  with Cons.prems(3) have
    "ints_convertible (build_request (request_id c + 1) (op_method x) (op_params x))"
    by fastforce
  from perform_running [OF Cons.prems(1,2) this] step
  obtain p' where c': "process c' = Some p'" "\<not> finished p'"
    "request_id c' = request_id c + 1"
    "stdin_log p' = stdin_log p @ [request_line (request_id c + 1) (op_method x) (op_params x)]"
    by auto
  have w: "written c' = written c @ [request_line (request_id c + 1) (op_method x) (op_params x)]"
    using c'(1,4) Cons.prems(1) by (simp add: written_def)
  show ?case
  proof (cases "ends_sequence r")
    case True
    with step w show ?thesis
      by (simp add: request_lines_Suc [OF c'(3)] del: perform.simps)
  next
    case False
    have "\<forall>k<performed c' xs. ints_convertible
       (build_request (request_id c' + 1 + int k) (op_method (xs ! k)) (op_params (xs ! k)))"
    proof (intro allI impI)
      fix k assume "k < performed c' xs"
      with step False have "Suc k < performed c (x # xs)" by simp
      with Cons.prems(3) have "ints_convertible (build_request (request_id c + 1 + int (Suc k))
          (op_method ((x # xs) ! Suc k)) (op_params ((x # xs) ! Suc k)))" by blast
      then show "ints_convertible
          (build_request (request_id c' + 1 + int k) (op_method (xs ! k)) (op_params (xs ! k)))"
        by (simp add: c'(3) add.commute add.left_commute)
    qed
    from Cons.IH [OF c'(1,2) this] step False w show ?thesis
      by (simp add: request_lines_Suc [OF c'(3)] del: perform.simps)
  qed
qed

lemma perform_all_prefix:
  "\<exists>n\<le>performed c xs. written (perform_all c xs) = written c @ request_lines c xs n"
proof (induction xs arbitrary: c)
  case Nil
  show ?case by simp
next
  case (Cons x xs)
  obtain r c' where step: "perform c x = (r, c')" by (cases "perform c x")
  from Cons.IH [of c'] obtain n where n: "n \<le> performed c' xs"
    "written (perform_all c' xs) = written c' @ request_lines c' xs n" by blast
  let ?line = "request_line (request_id c + 1) (op_method x) (op_params x)"
  from perform_effect [OF step] consider
      (none) "process c = None"
    | (same) p where "process c = Some p" "process c' = Some p" "r = Outside_Model \<or> finished p"
    | (sent) "request_id c' = request_id c + 1" "written c' = written c @ [?line]"
    by (auto simp: written_def)
  then show ?case
  proof cases
    case none
    have "written (perform_all c (x # xs)) = written c @ request_lines c (x # xs) 0"
      by (simp add: perform_all_not_started [OF none] del: perform_all.simps)
    then show ?thesis by blast
  next
    case same
    have "written (perform_all c (x # xs)) = written c"
    proof (cases "finished p")
      case True
      from perform_all_finished [OF same(1) True, of "x # xs"] same(1)
      show ?thesis by (simp add: written_def del: perform_all.simps)
    next
      case False
      with same(3) have "r = Outside_Model" by simp
      with step same show ?thesis by (simp add: written_def)
    qed
    then have "written (perform_all c (x # xs)) = written c @ request_lines c (x # xs) 0"
      by simp
    then show ?thesis by blast
  next
    case sent
    show ?thesis
    proof (cases "ends_sequence r")
      case True
      with step sent have "Suc 0 \<le> performed c (x # xs) \<and>
        written (perform_all c (x # xs)) = written c @ request_lines c (x # xs) (Suc 0)"
        by (simp add: request_lines_Suc [OF sent(1)] del: perform.simps)
      then show ?thesis by blast
    next
      case False
      with step sent n have "Suc n \<le> performed c (x # xs) \<and>
        written (perform_all c (x # xs)) = written c @ request_lines c (x # xs) (Suc n)"
        by (simp add: request_lines_Suc [OF sent(1)] del: perform.simps)
      then show ?thesis by blast
    qed
  qed
qed

lemma distinct_request_lines: "distinct (request_lines c xs n)"
proof -
  have "inj_on (\<lambda>k. request_line (request_id c + 1 + int k) (op_method (xs ! k))
      (op_params (xs ! k))) (set [0..<n])"
    by (rule inj_onI) (auto dest: request_line_inject)
  then show ?thesis
    by (simp add: request_lines_def distinct_map)
qed

lemma send_request_line:
  assumes "process c = Some p" "\<not> finished p"
    "ints_convertible (build_request (request_id c + 1) m ps)"
    "stdout_buf p = line @ newline # rest" "newline \<notin> set line" "length line \<le> stream_limit"
  shows "send_request c m ps =
    (decode_response (line @ [newline]),
     c\<lparr>request_id := request_id c + 1,
       process := Some (p\<lparr>stdin_log := stdin_log p @ [request_line (request_id c + 1) m ps],
                          stdout_buf := rest\<rparr>)\<rparr>)"
proof -
  let ?p1 = "p\<lparr>stdin_log := stdin_log p @ [request_line (request_id c + 1) m ps]\<rparr>"
  have "readline ?p1 = (Returns (line @ [newline]), ?p1\<lparr>stdout_buf := rest\<rparr>)"
    using assms(4-6) by (intro readline_line) simp_all
  then show ?thesis
    by (simp add: send_request_running [OF assms(1-3)])
qed

lemma send_request_Returns:
  assumes "send_request c m ps = (Returns v, c')"
  shows "\<exists>p p'. process c = Some p \<and> \<not> finished p \<and> process c' = Some p' \<and> \<not> finished p' \<and>
    request_id c' = request_id c + 1 \<and>
    stdin_log p' = stdin_log p @ [request_line (request_id c + 1) m ps]"
  using send_request_effect [OF assms] by auto

lemma send_request_increments:
  "process c = Some p \<Longrightarrow> request_id (snd (send_request c m ps)) = request_id c + 1"
  using send_request_effect [of c m ps "fst (send_request c m ps)" "snd (send_request c m ps)"]
  by auto

lemma handle_response_error:
  assumes "map_of members ''error'' = Some payload"
  shows "handle_response (JObj members) = Raises (Exception_Tool_error payload)"
proof -
  have "''error'' \<in> fst ` set members"
    using assms map_of_eq_None_iff [of members "''error''"] by auto
  then show ?thesis using assms by (simp add: handle_response_def)
qed

lemma handle_response_no_error:
  assumes "map_of members ''error'' = None"
  shows "handle_response (JObj members) = extract_text (JObj members)"
proof -
  have "''error'' \<notin> fst ` set members"
    using assms map_of_eq_None_iff [of members "''error''"] by auto
  then show ?thesis by (simp add: handle_response_def)
qed

lemma call_tool_Returns:
  assumes "send_request c ''tools/call'' (tool_call_params t a) = (Returns v, c')"
  shows "call_tool c t a = (handle_response v, c')"
  using assms by (simp add: call_tool_def)

lemma started_simps [simp]:
  "process (started out closes) = Some (child out closes)"
  "request_id (started out closes) = 0"
  "finished (child out closes) = False"
  "stdin_log (child out closes) = []"
  "stdout_buf (child out closes) = out"
  "stdout_eof (child out closes) = closes"
  by (simp_all add: started_def start_server_def init_def child_def)

lemma send_request_started:
  assumes "newline \<notin> set line" "length line \<le> stream_limit"
    "ints_convertible (build_request 1 m ps)"
  shows "send_request (started (line @ newline # rest) closes) m ps =
    (decode_response (line @ [newline]), after_first_call m ps rest closes)"
  using send_request_line [of "started (line @ newline # rest) closes"
      "child (line @ newline # rest) closes" m ps line rest] assms
  by (simp add: after_first_call_def started_def start_server_def init_def child_def)

lemma send_request_second:
  assumes "newline \<notin> set line" "length line \<le> stream_limit"
    "ints_convertible (build_request 2 m ps)"
  shows "send_request (after_first_call m0 ps0 (line @ newline # rest) closes) m ps =
    (decode_response (line @ [newline]),
     \<lparr>process = Some \<lparr>finished = False,
         stdin_log = [request_line 1 m0 ps0, request_line 2 m ps],
         stdout_buf = rest, stdout_eof = closes\<rparr>,
      request_id = 2\<rparr>)"
  using send_request_line [of "after_first_call m0 ps0 (line @ newline # rest) closes"
      "\<lparr>finished = False, stdin_log = [request_line 1 m0 ps0],
        stdout_buf = line @ newline # rest, stdout_eof = closes\<rparr>" m ps line rest] assms
  by (simp add: after_first_call_def)

lemma examples_one_line:
  "newline \<notin> set response_57" "length response_57 \<le> stream_limit"
  "newline \<notin> set response_error" "length response_error \<le> stream_limit"
  "newline \<notin> set response_no_result" "length response_no_result \<le> stream_limit"
  "newline \<notin> set response_no_content" "length response_no_content \<le> stream_limit"
  "newline \<notin> set response_no_text" "length response_no_text \<le> stream_limit"
  "newline \<notin> set response_empty_content" "length response_empty_content \<le> stream_limit"
  "newline \<notin> set response_other_id" "length response_other_id \<le> stream_limit"
  by (simp_all add: newline_def stream_limit_def response_57_def response_error_def
      response_no_result_def response_no_content_def response_no_text_def
      response_empty_content_def response_other_id_def)

lemma decode_response_57:
  "decode_response (response_57 @ [newline]) =
     Returns (JObj [(''result'', JObj [(''content'', JArr [JObj [(''text'', JStr ''57'')]])])])"
  by code_simp

lemma decode_response_error:
  "decode_response (response_error @ [newline]) =
     Returns (JObj [(''error'', JObj [(''message'', JStr ''population must be non-empty'')])])"
  by code_simp

lemma decode_response_no_result:
  "decode_response (response_no_result @ [newline]) =
     Returns (JObj [(''jsonrpc'', JStr ''2.0''), (''id'', JInt 1)])"
  by code_simp

lemma decode_response_no_content:
  "decode_response (response_no_content @ [newline]) =
     Returns (JObj [(''jsonrpc'', JStr ''2.0''), (''id'', JInt 1), (''result'', JObj [])])"
  by code_simp

lemma decode_response_no_text:
  "decode_response (response_no_text @ [newline]) =
     Returns (JObj [(''jsonrpc'', JStr ''2.0''), (''id'', JInt 1),
                    (''result'', JObj [(''content'', JArr [JObj []])])])"
  by code_simp

lemma decode_response_empty_content:
  "decode_response (response_empty_content @ [newline]) =
     Returns (JObj [(''jsonrpc'', JStr ''2.0''), (''id'', JInt 1),
                    (''result'', JObj [(''content'', JArr [])])])"
  by code_simp

lemma decode_response_other_id:
  "decode_response (response_other_id @ [newline]) =
     Returns (JObj [(''jsonrpc'', JStr ''2.0''), (''id'', JInt 999), (''result'', JObj [])])"
  by code_simp

lemma examples_convertible:
  "ints_convertible (build_request 1 ''tools/call'' (tool_call_params ''random_int'' random_int_arguments))"
  "ints_convertible (build_request 2 ''tools/call'' (tool_call_params ''random_int'' random_int_arguments))"
  "ints_convertible (build_request 1 ''tools/call'' (tool_call_params ''random_choices'' empty_population))"
  by code_simp+

lemma demo_first_request:
  "send_request (started demo_output False) ''tools/call''
     (tool_call_params ''random_choices'' empty_population) =
   (Returns (JObj [(''error'', JObj [(''message'', JStr ''population must be non-empty'')])]),
    demo_after_first)"
  unfolding demo_output_def demo_after_first_def
  by (simp add: send_request_started examples_one_line examples_convertible
      decode_response_error)

lemma demo_second_request:
  "send_request demo_after_first ''tools/call''
     (tool_call_params ''random_int'' random_int_arguments) =
   (Returns (JObj [(''result'', JObj [(''content'', JArr [JObj [(''text'', JStr ''57'')]])])]),
    demo_after_second)"
  unfolding demo_after_first_def demo_after_second_def
  using send_request_second [of response_57 "''tools/call''"
      "tool_call_params ''random_int'' random_int_arguments" "''tools/call''"
      "tool_call_params ''random_choices'' empty_population" "[]" False]
  by (simp add: examples_one_line examples_convertible decode_response_57)

lemma demo_calls_performed: "performed (started demo_output False) demo_calls = 2"
  by (simp add: demo_calls_def call_tool_def demo_first_request demo_second_request
      handle_response_def extract_text_def ends_sequence_def)

lemma demo_request_lines:
  \<open>request_line 1 ''tools/call'' (tool_call_params ''random_choices'' empty_population) =
    ''{"jsonrpc": "2.0", "id": 1, "method": "tools/call", "params": {"name": "random_choices", "arguments": {"population": []}}}'' @ [newline]\<close>
  \<open>request_line 2 ''tools/call'' (tool_call_params ''random_int'' random_int_arguments) =
    ''{"jsonrpc": "2.0", "id": 2, "method": "tools/call", "params": {"name": "random_int", "arguments": {"low": 1, "high": 100}}}'' @ [newline]\<close>
  by code_simp+

lemma call_tool_started:
  assumes "newline \<notin> set line" "length line \<le> stream_limit"
    "ints_convertible (build_request 1 ''tools/call'' (tool_call_params t a))"
    "decode_response (line @ [newline]) = Returns v"
  shows "send_request (started (line @ [newline]) closes) ''tools/call'' (tool_call_params t a) =
    (Returns v, after_first_call ''tools/call'' (tool_call_params t a) [] closes)"
  using send_request_started [OF assms(1-3), of "[]" closes] assms(4) by simp

section \<open>The claims of the specification\<close>

text \<open>
  Claim C1. For every sequence of calls on one client, the ids that \<^verbatim>\<open>send_request\<close> puts in
  the request envelopes are strictly increasing, with no repeats: each call uses the counter
  after incrementing it. The \<^verbatim>\<open>id\<close> entry of an envelope is the number it was built with,
  and two request lines with different ids differ. Of a sequence of calls (\<^verbatim>\<open>send_request\<close>
  or \<^verbatim>\<open>call_tool\<close>, in any order, failing or not) at least the first is made. On a client
  without a child no envelope is built and the client stays as it is; otherwise the counter
  ends one higher for each call made. Whatever the client, the chunks written during the
  sequence are the request lines of the first calls, the \<open>k\<close>-th of them (from 0) with the id
  \<open>k + 1\<close> above the counter at the start, and these lines are distinct. On a running child,
  with every request convertible to text, each call made writes its line: the ids on the
  wire are the counter at the start plus 1, 2, 3 and so on, one for each call made.
\<close>

theorem request_ids_strictly_increasing:
  "(\<forall>rid m ps. py_getitem (build_request rid m ps) ''id'' = Returns (JInt rid)) \<and>
   (\<forall>i j m ps m' ps'. request_line i m ps = request_line j m' ps' \<longrightarrow> i = j) \<and>
   performed c xs \<le> length xs \<and> (xs \<noteq> [] \<longrightarrow> 0 < performed c xs) \<and>
   (process c = None \<longrightarrow> perform_all c xs = c) \<and>
   (process c \<noteq> None \<longrightarrow>
      request_id (perform_all c xs) = request_id c + int (performed c xs)) \<and>
   (\<exists>n\<le>performed c xs. written (perform_all c xs) = written c @ request_lines c xs n) \<and>
   distinct (request_lines c xs (performed c xs)) \<and>
   ((\<exists>p. process c = Some p \<and> \<not> finished p) \<and>
    (\<forall>k<performed c xs. ints_convertible
       (build_request (request_id c + 1 + int k) (op_method (xs ! k)) (op_params (xs ! k)))) \<longrightarrow>
      written (perform_all c xs) = written c @ request_lines c xs (performed c xs))"
proof -
  have "request_id (perform_all c xs) = request_id c + int (performed c xs)"
    if "process c \<noteq> None"
    using that perform_all_counter [of c _ xs] by (cases "process c") simp_all
  moreover have "written (perform_all c xs) = written c @ request_lines c xs (performed c xs)"
    if "\<exists>p. process c = Some p \<and> \<not> finished p"
      and "\<forall>k<performed c xs. ints_convertible
       (build_request (request_id c + 1 + int k) (op_method (xs ! k)) (op_params (xs ! k)))"
    using that perform_all_running [of c _ xs] by blast
  ultimately show ?thesis
    using request_id_field request_line_inject performed_le_length [of c xs]
      performed_positive [of xs c] perform_all_not_started [of c xs]
      perform_all_prefix [of c xs] distinct_request_lines [of c xs "performed c xs"]
    by blast
qed

text \<open>
  The two calls of the example, the first answered by an error: both are made, the counter
  ends at 2, and the two lines written carry the ids 1 and 2.
\<close>

theorem request_ids_strictly_increasing_witness:
  \<open>performed (started demo_output False) demo_calls = 2 \<and>
   request_id (perform_all (started demo_output False) demo_calls) = 2 \<and>
   written (perform_all (started demo_output False) demo_calls) =
     [''{"jsonrpc": "2.0", "id": 1, "method": "tools/call", "params": {"name": "random_choices", "arguments": {"population": []}}}'' @ [newline],
      ''{"jsonrpc": "2.0", "id": 2, "method": "tools/call", "params": {"name": "random_int", "arguments": {"low": 1, "high": 100}}}'' @ [newline]]\<close>
proof -
  let ?c = "started demo_output False"
  have conv: "\<forall>k<performed ?c demo_calls. ints_convertible
      (build_request (request_id ?c + 1 + int k) (op_method (demo_calls ! k))
         (op_params (demo_calls ! k)))"
  proof (intro allI impI)
    fix k assume "k < performed ?c demo_calls"
    then have "k = 0 \<or> k = 1" by (auto simp: demo_calls_performed)
    then show "ints_convertible (build_request (request_id ?c + 1 + int k)
        (op_method (demo_calls ! k)) (op_params (demo_calls ! k)))"
      by (auto simp: demo_calls_def examples_convertible)
  qed
  have lines: "request_lines ?c demo_calls 2 =
      [request_line 1 ''tools/call'' (tool_call_params ''random_choices'' empty_population),
       request_line 2 ''tools/call'' (tool_call_params ''random_int'' random_int_arguments)]"
    by (simp add: request_lines_def demo_calls_def numeral_2_eq_2)
  from request_ids_strictly_increasing [where c = ?c and xs = demo_calls] conv
  have "request_id (perform_all ?c demo_calls) = request_id ?c + int (performed ?c demo_calls)"
    and "written (perform_all ?c demo_calls) =
      written ?c @ request_lines ?c demo_calls (performed ?c demo_calls)"
    by simp_all
  then show ?thesis
    by (simp add: demo_calls_performed lines demo_request_lines written_def)
qed

text \<open>
  Claim C2. When the decoded response is a dictionary with an \<^verbatim>\<open>error\<close> entry, \<^verbatim>\<open>call_tool\<close>
  raises \<^verbatim>\<open>Exception(f"Tool error: {payload}")\<close> with the entry as payload (the program's
  form of the specification's ToolError). The failure touches nothing else: the client is
  left exactly as \<^verbatim>\<open>send_request\<close> left it, with the counter advanced by one and the child
  still running, and the next call takes the next id.
\<close>

theorem tool_error_fails_that_call_only:
  assumes "send_request c ''tools/call'' (tool_call_params tool_name arguments) =
      (Returns (JObj members), c')"
    and "map_of members ''error'' = Some payload"
  shows "call_tool c tool_name arguments = (Raises (Exception_Tool_error payload), c') \<and>
    request_id c' = request_id c + 1 \<and>
    (\<exists>p'. process c' = Some p' \<and> \<not> finished p') \<and>
    request_id (snd (call_tool c' next_tool next_arguments)) = request_id c + 2"
proof -
  from send_request_Returns [OF assms(1)] obtain p' where
    p': "process c' = Some p'" "\<not> finished p'" "request_id c' = request_id c + 1"
    by blast
  have "request_id (snd (call_tool c' next_tool next_arguments)) = request_id c' + 1"
    using send_request_increments [OF p'(1)] by (simp add: call_tool_eq)
  with p' show ?thesis
    by (simp add: call_tool_Returns [OF assms(1)] handle_response_error [OF assms(2)])
qed

text \<open>
  The example: the first call fails with the payload of the error response, the second call
  on the same client returns \<^verbatim>\<open>"57"\<close>, and the ids are 1 and 2.
\<close>

theorem tool_error_fails_that_call_only_witness:
  "call_tool (started demo_output False) ''random_choices'' empty_population =
     (Raises (Exception_Tool_error (JObj [(''message'', JStr ''population must be non-empty'')])),
      demo_after_first) \<and>
   request_id demo_after_first = 1 \<and>
   call_tool demo_after_first ''random_int'' random_int_arguments =
     (Returns (JStr ''57''), demo_after_second) \<and>
   request_id demo_after_second = 2"
proof -
  have "map_of [(''error'', JObj [(''message'', JStr ''population must be non-empty'')])] ''error'' =
      Some (JObj [(''message'', JStr ''population must be non-empty'')])"
    by simp
  from tool_error_fails_that_call_only [OF demo_first_request this,
      of "''random_int''" random_int_arguments]
  show ?thesis
    by (simp add: call_tool_def demo_second_request handle_response_def extract_text_def
        demo_after_second_def)
qed

text \<open>
  Claim C3 says that a non-error response without the expected shape (no \<^verbatim>\<open>result\<close>, no
  \<^verbatim>\<open>content\<close>, no \<^verbatim>\<open>text\<close> in the first item) makes \<^verbatim>\<open>call_tool\<close> fail with
  MalformedResultError. The program does not fail there: the defaults \<^verbatim>\<open>{}\<close> and \<^verbatim>\<open>[{}]\<close> of
  the two \<^verbatim>\<open>get\<close> calls make each of the three responses return \<^verbatim>\<open>None\<close>.
\<close>

theorem missing_fields_counterexample:
  "fst (call_tool (started (response_no_result @ [newline]) False) ''random_int''
          random_int_arguments) = Returns JNull \<and>
   fst (call_tool (started (response_no_content @ [newline]) False) ''random_int''
          random_int_arguments) = Returns JNull \<and>
   fst (call_tool (started (response_no_text @ [newline]) False) ''random_int''
          random_int_arguments) = Returns JNull"
  by (simp add: call_tool_def handle_response_def extract_text_def
      call_tool_started [OF examples_one_line(5,6) examples_convertible(1) decode_response_no_result]
      call_tool_started [OF examples_one_line(7,8) examples_convertible(1) decode_response_no_content]
      call_tool_started [OF examples_one_line(9,10) examples_convertible(1) decode_response_no_text])

text \<open>
  Claim C3, as the program has it. For every decoded response that is a dictionary without
  an \<^verbatim>\<open>error\<close> entry and that has no \<^verbatim>\<open>result\<close> entry, or whose result dictionary has no
  \<^verbatim>\<open>content\<close> entry, or whose first content item is a dictionary without a \<^verbatim>\<open>text\<close>
  entry, \<^verbatim>\<open>call_tool\<close> returns \<^verbatim>\<open>None\<close> and raises nothing.
\<close>

theorem missing_fields_return_none:
  assumes "send_request c ''tools/call'' (tool_call_params tool_name arguments) =
      (Returns (JObj members), c')"
    and "map_of members ''error'' = None"
    and "map_of members ''result'' = None \<or>
      (\<exists>result. map_of members ''result'' = Some (JObj result) \<and>
         (map_of result ''content'' = None \<or>
          (\<exists>item others. map_of result ''content'' = Some (JArr (JObj item # others)) \<and>
             map_of item ''text'' = None)))"
  shows "call_tool c tool_name arguments = (Returns JNull, c')"
proof -
  have "extract_text (JObj members) = Returns JNull"
    using assms(3) by (auto simp: extract_text_def)
  then show ?thesis
    by (simp add: call_tool_Returns [OF assms(1)] handle_response_no_error [OF assms(2)])
qed

text \<open>The response whose first content item is the empty dictionary.\<close>

theorem missing_fields_return_none_witness:
  "call_tool (started (response_no_text @ [newline]) False) ''random_int'' random_int_arguments =
     (Returns JNull,
      after_first_call ''tools/call'' (tool_call_params ''random_int'' random_int_arguments) [] False)"
  using missing_fields_return_none
    [OF call_tool_started [OF examples_one_line(9,10) examples_convertible(1) decode_response_no_text]]
  by simp







text \<open>
  Claim C6 says that every operation attempted before \<^verbatim>\<open>start_server\<close> has completed
  fails. \<^verbatim>\<open>stop_server\<close> is such an operation and returns normally on a fresh client.
\<close>

theorem stop_before_start_counterexample:
  "process init = None \<and> fst (stop_server init) = Returns ()"
  by (simp add: init_def stop_server_def)

text \<open>
  Claim C6, as the program has it. Every request (\<^verbatim>\<open>send_request\<close>, \<^verbatim>\<open>call_tool\<close>) made
  while no child has been started raises \<^verbatim>\<open>RuntimeError("Server not started")\<close>, writes
  nothing and leaves the client, counter included, as it was, whereas \<^verbatim>\<open>stop_server\<close>
  returns normally there. Every request made after \<^verbatim>\<open>stop_server\<close> fails as well, with
  \<^verbatim>\<open>ConnectionResetError\<close> from \<^verbatim>\<open>drain()\<close>, and nothing reaches the child.
\<close>

theorem requests_outside_running_fail:
  "(process c = None \<longrightarrow>
      send_request c m ps = (Raises (RuntimeError ''Server not started''), c) \<and>
      call_tool c t a = (Raises (RuntimeError ''Server not started''), c) \<and>
      written c = [] \<and>
      stop_server c = (Returns (), c)) \<and>
   (process c \<noteq> None \<and> ints_convertible (build_request (request_id c + 1) m ps) \<longrightarrow>
      fst (send_request (snd (stop_server c)) m ps) = Raises ConnectionResetError \<and>
      written (snd (send_request (snd (stop_server c)) m ps)) = written c) \<and>
   (process c \<noteq> None \<and>
    ints_convertible (build_request (request_id c + 1) ''tools/call'' (tool_call_params t a)) \<longrightarrow>
      fst (call_tool (snd (stop_server c)) t a) = Raises ConnectionResetError \<and>
      written (snd (call_tool (snd (stop_server c)) t a)) = written c)"
proof -
  have stopped: "\<exists>q. process (snd (stop_server c)) = Some q \<and> finished q \<and>
      stdin_log q = stdin_log p \<and> request_id (snd (stop_server c)) = request_id c"
    if "process c = Some p" for p
    using that by (auto simp: stop_server_def)
  have after: "fst (send_request (snd (stop_server c)) m' ps') = Raises ConnectionResetError \<and>
      written (snd (send_request (snd (stop_server c)) m' ps')) = written c"
    if "process c \<noteq> None" "ints_convertible (build_request (request_id c + 1) m' ps')"
    for m' ps'
  proof -
    from that(1) obtain p where p: "process c = Some p" by auto
    from stopped [OF p] obtain q where q: "process (snd (stop_server c)) = Some q" "finished q"
      "stdin_log q = stdin_log p" "request_id (snd (stop_server c)) = request_id c"
      by blast
    show ?thesis
      using that(2) p q by (simp add: send_request_finished [OF q(1,2)] written_def)
  qed
  show ?thesis
    using after [of m ps] after [of "''tools/call''" "tool_call_params t a"]
    by (auto simp: send_request_not_started call_tool_eq written_def stop_server_def)
qed

text \<open>A fresh client, and the client of the example after \<^verbatim>\<open>stop_server\<close>.\<close>

theorem requests_outside_running_fail_witness:
  "send_request init ''tools/call'' (tool_call_params ''random_int'' random_int_arguments) =
     (Raises (RuntimeError ''Server not started''), init) \<and>
   call_tool init ''random_int'' random_int_arguments =
     (Raises (RuntimeError ''Server not started''), init) \<and>
   fst (send_request (snd (stop_server (started demo_output False))) ''tools/call''
          (tool_call_params ''random_int'' random_int_arguments)) = Raises ConnectionResetError \<and>
   fst (call_tool (snd (stop_server (started demo_output False))) ''random_int''
          random_int_arguments) = Raises ConnectionResetError"
  using requests_outside_running_fail [of init "''tools/call''"
      "tool_call_params ''random_int'' random_int_arguments" "''random_int''" random_int_arguments]
    requests_outside_running_fail [of "started demo_output False" "''tools/call''"
      "tool_call_params ''random_int'' random_int_arguments" "''random_int''" random_int_arguments]
  by (simp add: examples_convertible init_def)

text \<open>
  Claim C7. For every response without an \<^verbatim>\<open>error\<close> entry whose result has the shape
  \<^verbatim>\<open>{"content": [{"text": <string>}, ...]}\<close>, \<^verbatim>\<open>call_tool\<close> returns the \<^verbatim>\<open>text\<close> of the
  content item at index 0.
\<close>

theorem first_content_text_returned:
  assumes "send_request c ''tools/call'' (tool_call_params tool_name arguments) =
      (Returns (JObj members), c')"
    and "map_of members ''error'' = None"
    and "map_of members ''result'' = Some (JObj result)"
    and "map_of result ''content'' = Some (JArr (JObj item # others))"
    and "map_of item ''text'' = Some (JStr answer)"
  shows "call_tool c tool_name arguments = (Returns (JStr answer), c')"
proof -
  have "extract_text (JObj members) = Returns (JStr answer)"
    using assms(3-5) by (simp add: extract_text_def)
  then show ?thesis
    by (simp add: call_tool_Returns [OF assms(1)] handle_response_no_error [OF assms(2)])
qed

text \<open>
  The scenario of the specification: the line \<^verbatim>\<open>{"result":{"content":[{"text":"57"}]}}\<close>
  read from the child yields \<^verbatim>\<open>"57"\<close>.
\<close>

theorem first_content_text_returned_witness:
  "call_tool (started (response_57 @ [newline]) False) ''random_int'' random_int_arguments =
     (Returns (JStr ''57''),
      after_first_call ''tools/call'' (tool_call_params ''random_int'' random_int_arguments) [] False)"
  using first_content_text_returned
    [OF call_tool_started [OF examples_one_line(1,2) examples_convertible(1) decode_response_57],
      where result = "[(''content'', JArr [JObj [(''text'', JStr ''57'')]])]"
        and item = "[(''text'', JStr ''57'')]" and others = "[]" and answer = "''57''"]
  by simp

text \<open>
  Claim C8. For every method and every parameter value, \<^verbatim>\<open>send_request\<close> on a running child
  writes exactly one chunk: the serialisation of the dictionary with exactly the entries
  \<^verbatim>\<open>jsonrpc\<close> = \<^verbatim>\<open>"2.0"\<close>, \<^verbatim>\<open>id\<close> = the counter after its increment, \<^verbatim>\<open>method\<close> and \<^verbatim>\<open>params\<close>,
  followed by a newline. The newline is the last byte of the chunk and the only one.
\<close>

theorem request_line_written:
  assumes "process c = Some p" "\<not> finished p"
    "ints_convertible (build_request (request_id c + 1) method params)"
  shows "\<exists>p'. process (snd (send_request c method params)) = Some p' \<and>
      stdin_log p' = stdin_log p @ [request_line (request_id c + 1) method params] \<and>
      request_line (request_id c + 1) method params =
        dumps_text (JObj [(''jsonrpc'', JStr ''2.0''), (''id'', JInt (request_id c + 1)),
                          (''method'', JStr method), (''params'', params)]) @ [newline] \<and>
      newline \<notin> set (butlast (request_line (request_id c + 1) method params)) \<and>
      last (request_line (request_id c + 1) method params) = newline"
proof -
  have "\<exists>p'. process (snd (send_request c method params)) = Some p' \<and>
      stdin_log p' = stdin_log p @ [request_line (request_id c + 1) method params]"
    using assms by (simp add: send_request_running readline_keeps)
  then show ?thesis
    by (simp add: request_line_def build_request_def newline_notin_dumps(1)
        del: dumps_text.simps)
qed

text \<open>The bytes of the first request of the example.\<close>

theorem request_line_written_witness:
  \<open>\<exists>p'. process (snd (send_request (started (response_57 @ [newline]) False) ''tools/call''
            (tool_call_params ''random_int'' random_int_arguments))) = Some p' \<and>
     stdin_log p' =
       [''{"jsonrpc": "2.0", "id": 1, "method": "tools/call", "params": {"name": "random_int", "arguments": {"low": 1, "high": 100}}}'' @ [newline]]\<close>
proof -
  have line: \<open>request_line 1 ''tools/call'' (tool_call_params ''random_int'' random_int_arguments) =
      ''{"jsonrpc": "2.0", "id": 1, "method": "tools/call", "params": {"name": "random_int", "arguments": {"low": 1, "high": 100}}}'' @ [newline]\<close>
    by code_simp
  from request_line_written [of "started (response_57 @ [newline]) False"
      "child (response_57 @ [newline]) False" "''tools/call''"
      "tool_call_params ''random_int'' random_int_arguments"]
  obtain p' where "process (snd (send_request (started (response_57 @ [newline]) False)
        ''tools/call'' (tool_call_params ''random_int'' random_int_arguments))) = Some p'"
    "stdin_log p' =
      [request_line 1 ''tools/call'' (tool_call_params ''random_int'' random_int_arguments)]"
    by (auto simp: examples_convertible simp del: dumps_text.simps)
  then show ?thesis
    unfolding line by blast
qed

text \<open>
  Claim C9. \<^verbatim>\<open>send_request\<close> never compares the id of the response with the id it sent:
  whatever line \<^verbatim>\<open>readline()\<close> delivers, the outcome of the call is the outcome of decoding
  that line, whatever id the decoded envelope carries, and no exception of the method
  depends on it.
\<close>

theorem response_id_not_checked:
  assumes "process c = Some p" "\<not> finished p"
    "ints_convertible (build_request (request_id c + 1) m ps)"
    "readline (p\<lparr>stdin_log := stdin_log p @ [request_line (request_id c + 1) m ps]\<rparr>) =
       (Returns response_line, p')"
  shows "send_request c m ps =
    (decode_response response_line, c\<lparr>request_id := request_id c + 1, process := Some p'\<rparr>)"
  using assms(4) by (simp add: send_request_running [OF assms(1-3)])

text \<open>The request with id 1 is answered by an envelope with id 999, which is returned.\<close>

theorem response_id_not_checked_witness:
  "send_request (started (response_other_id @ [newline]) False) ''tools/call''
     (tool_call_params ''random_int'' random_int_arguments) =
   (Returns (JObj [(''jsonrpc'', JStr ''2.0''), (''id'', JInt 999), (''result'', JObj [])]),
    after_first_call ''tools/call'' (tool_call_params ''random_int'' random_int_arguments) [] False) \<and>
   request_id (after_first_call ''tools/call''
     (tool_call_params ''random_int'' random_int_arguments) [] False) = 1"
proof -
  let ?p = "child (response_other_id @ [newline]) False"
  let ?line = "request_line 1 ''tools/call'' (tool_call_params ''random_int'' random_int_arguments)"
  have "readline (?p\<lparr>stdin_log := stdin_log ?p @ [?line]\<rparr>) =
      (Returns (response_other_id @ [newline]),
       ?p\<lparr>stdin_log := stdin_log ?p @ [?line], stdout_buf := []\<rparr>)"
    by (rule readline_line) (simp_all add: examples_one_line)
  from response_id_not_checked [of "started (response_other_id @ [newline]) False" ?p
      "''tools/call''" "tool_call_params ''random_int'' random_int_arguments", simplified,
      OF examples_convertible(1) this [simplified]]
  show ?thesis
    by (simp add: decode_response_other_id after_first_call_def started_def start_server_def
        init_def child_def)
qed

text \<open>
  Claim C10. When the response has no \<^verbatim>\<open>error\<close> entry and the \<^verbatim>\<open>content\<close> of its result is
  the empty list, the expression of line 64 indexes position 0 of that list and
  \<^verbatim>\<open>call_tool\<close> raises \<^verbatim>\<open>IndexError\<close>.
\<close>

theorem empty_content_index_error:
  assumes "send_request c ''tools/call'' (tool_call_params tool_name arguments) =
      (Returns (JObj members), c')"
    and "map_of members ''error'' = None"
    and "map_of members ''result'' = Some (JObj result)"
    and "map_of result ''content'' = Some (JArr [])"
  shows "call_tool c tool_name arguments = (Raises IndexError, c')"
proof -
  have "extract_text (JObj members) = Raises IndexError"
    using assms(3,4) by (simp add: extract_text_def)
  then show ?thesis
    by (simp add: call_tool_Returns [OF assms(1)] handle_response_no_error [OF assms(2)])
qed

text \<open>The response \<^verbatim>\<open>{"jsonrpc":"2.0","id":1,"result":{"content":[]}}\<close>.\<close>

theorem empty_content_index_error_witness:
  "call_tool (started (response_empty_content @ [newline]) False) ''random_int''
     random_int_arguments =
     (Raises IndexError,
      after_first_call ''tools/call'' (tool_call_params ''random_int'' random_int_arguments) [] False)"
  using empty_content_index_error
    [OF call_tool_started [OF examples_one_line(11,12) examples_convertible(1)
          decode_response_empty_content],
      where result = "[(''content'', JArr [])]"]
  by simp

end
